theory Spec2Isabelle
  imports Main "HOL-Library.Sublist"
begin

section \<open>JavaScript values, strings and thrown errors\<close>

text \<open>
  A thrown value is either an instance of \<^verbatim>\<open>Deno.errors.NotFound\<close> or anything else
  (\<^verbatim>\<open>Error\<close>, \<^verbatim>\<open>SyntaxError\<close>, \<^verbatim>\<open>TypeError\<close>, \<^verbatim>\<open>Deno.errors.PermissionDenied\<close>, ...),
  kept with its message. The sources only ever test \<^verbatim>\<open>error instanceof Deno.errors.NotFound\<close>.
\<close>

datatype js_error = NotFound | Error string

text \<open>
  The values a session variable can hold. Numbers are left to a type parameter: the code
  only stores and returns them.
\<close>

datatype 'n js_value =
    Undefined
  | Null
  | Boolean bool
  | Number 'n
  | String string
  | Array "'n js_value list"
  | Object "(string \<times> 'n js_value) list"

text \<open>\<^verbatim>\<open>String.prototype.endsWith(searchString)\<close> with the default end position.\<close>

definition endsWith :: "string \<Rightarrow> string \<Rightarrow> bool" where
  "endsWith s searchString =
     (length searchString \<le> length s \<and>
      drop (length s - length searchString) s = searchString)"





section \<open>Controller: \<^verbatim>\<open>render\<close> and \<^verbatim>\<open>renderView\<close>\<close>

text \<open>
  \<^verbatim>\<open>View\<close> and \<^verbatim>\<open>ViewResponse\<close> are constructed from \<^verbatim>\<open>(file, variables, options)\<close>; their
  classes are not part of the sources, so an instance is the record of its constructor
  arguments. \<^verbatim>\<open>Utils.callerFile()\<close> is the argument \<open>caller\<close>, and
  \<^verbatim>\<open>Utils.resolveViewFile\<close> the argument \<open>resolveViewFile\<close>.
\<close>

record ('v, 'o) view =
  view_file :: string
  view_variables :: 'v
  view_options :: 'o

text \<open>\<^verbatim>\<open>Controller.render\<close> of \<^verbatim>\<open>src/unnamed/part_001\<close> (lines 22 to 36).\<close>

definition Controller_render_html ::
  "(string \<Rightarrow> string \<Rightarrow> string) \<Rightarrow> string \<Rightarrow> string \<Rightarrow> 'v \<Rightarrow> 'o \<Rightarrow> ('v, 'o) view" where
  "Controller_render_html resolveViewFile caller file variables options =
     (let file = resolveViewFile caller file;
          file = (if \<not> endsWith file ''.html'' then file @ ''.html'' else file)
      in \<lparr>view_file = file, view_variables = variables, view_options = options\<rparr>)"

text \<open>\<^verbatim>\<open>Controller.render\<close> of \<^verbatim>\<open>src/src/http/controller.class.ts\<close> (lines 37 to 51).\<close>

definition Controller_render ::
  "(string \<Rightarrow> string \<Rightarrow> string) \<Rightarrow> string \<Rightarrow> string \<Rightarrow> 'v \<Rightarrow> 'o \<Rightarrow> ('v, 'o) view" where
  "Controller_render resolveViewFile caller file variables options =
     (let file = resolveViewFile caller file;
          file = (if \<not> endsWith file ''.atom.html'' then file @ ''.atom.html'' else file)
      in \<lparr>view_file = file, view_variables = variables, view_options = options\<rparr>)"

text \<open>
  \<^verbatim>\<open>Controller.renderView\<close> of \<^verbatim>\<open>src/src/http/controller.class.ts\<close> (lines 69 to 93).
  The constructor call stands in a \<^verbatim>\<open>try\<close>: \<open>construct\<close> says what the constructor of
  \<^verbatim>\<open>ViewResponse\<close> throws, if anything. A \<^verbatim>\<open>NotFound\<close> is replaced by a plain
  \<^verbatim>\<open>Error\<close> naming the file; anything else is thrown again.
\<close>

definition Controller_renderView ::
  "(string \<Rightarrow> string \<Rightarrow> string) \<Rightarrow> (string \<Rightarrow> 'v \<Rightarrow> 'o \<Rightarrow> js_error option) \<Rightarrow>
   string \<Rightarrow> string \<Rightarrow> 'v \<Rightarrow> 'o \<Rightarrow> js_error + ('v, 'o) view" where
  "Controller_renderView resolveViewFile construct caller file variables options =
     (let file = resolveViewFile caller file;
          file = (if \<not> endsWith file ''.html'' then file @ ''.html'' else file)
      in case construct file variables options of
           None \<Rightarrow> Inr \<lparr>view_file = file, view_variables = variables, view_options = options\<rparr>
         | Some error \<Rightarrow>
             (if error \<noteq> NotFound then Inl error
              else Inl (Error (''View '' @ [CHR 0x27] @ file @ [CHR 0x27] @ '' does not exist''))))"

section \<open>Session\<close>

text \<open>
  The fields of \<^verbatim>\<open>Session\<close> (\<^verbatim>\<open>src/unnamed/part_002\<close>); \<^verbatim>\<open>storagePath\<close> is a constant.
  The file system and the JSON parser are arguments: \<open>readTextFile\<close> is
  \<^verbatim>\<open>Deno.readTextFile\<close> and \<open>JSON_parse\<close> is \<^verbatim>\<open>JSON.parse\<close>, each returning what it
  throws on the left.
\<close>

record 'n session =
  isLoaded :: bool
  variables :: "string \<rightharpoonup> 'n js_value"
  session_id :: "string option"






section \<open>Template nodes and the parser\<close>

text \<open>
  Modelled from the spec: the template compiler (\<^verbatim>\<open>templates/template_compiler.service.ts\<close>)
  is not among the sources, only its test is. The node type is that of section 3 of the
  specification: a text, an expression with its escape flag, or a directive with its
  name, its argument text if any, its children and its self-closing flag.
\<close>

datatype node =
    Text string
  | Expression string bool
  | Directive string "string option" "node list" bool

text \<open>
  Modelled from the spec: the parse-time errors of the taxonomy of section 7 (no source
  file declares them). Each error carries the name of the directive it is about.
\<close>

datatype parse_error =
    SyntaxError string
  | UnterminatedDirectiveError string
  | UnknownDirectiveError string

text \<open>
  Modelled from the spec: the part of a registry descriptor the parser reads (section
  4.3), block or inline (self-closing); \<open>None\<close> is the answer not-found of the lookup.
\<close>

datatype directive_kind = Block | Inline

type_synonym registry = "string \<Rightarrow> directive_kind option"

text \<open>
  Modelled from the spec: the built-in directives of section 4.4, block where the table
  shows a closer and inline otherwise.
\<close>

definition builtin :: registry where
  "builtin name =
     (if name \<in> set [''if'', ''each'', ''switch'', ''case'', ''push'', ''dev'', ''prod'']
      then Some Block
      else if name \<in> set [''stack'', ''csrf'', ''method'', ''json'', ''hotReload'', ''nonceProp'']
      then Some Inline
      else None)"

text \<open>
  Modelled from the spec: what the left-to-right scan of section 4.1 recognises at a
  position: a run of text, an expression \<^verbatim>\<open>{{ raw }}\<close> (trimmed, with its escape flag), a
  directive \<^verbatim>\<open>@name\<close> or \<^verbatim>\<open>@name(args)\<close>, or a closer \<^verbatim>\<open>@/name\<close>. The specification
  does not fix the characters of a name or the white space around the parentheses, so
  the parser below starts from these items.
\<close>

datatype token =
    TText string
  | TExpression string bool
  | TDirective string "string option"
  | TCloser string

text \<open>
  Modelled from the spec: an entry of the open-directive stack of section 4.1, a block
  directive that has been opened and the children accumulated for it so far.
\<close>

datatype open_directive = Open string "string option" "node list"

fun open_name :: "open_directive \<Rightarrow> string" where
  "open_name (Open name args children) = name"

fun is_Text :: "node \<Rightarrow> bool" where
  "is_Text (Text s) = True"
| "is_Text n = False"

text \<open>
  Modelled from the spec: appending a node to a sequence of children; text that follows
  text is accumulated into the same text node (adjacent text nodes are coalesced).
\<close>

fun append_node :: "node \<Rightarrow> node list \<Rightarrow> node list" where
  "append_node (Text s) [] = [Text s]"
| "append_node (Text s) [Text t] = [Text (t @ s)]"
| "append_node n [c] = [c, n]"
| "append_node n (c # cs) = c # append_node n cs"
| "append_node n [] = [n]"

text \<open>
  Modelled from the spec: a completed node becomes a child of the directive at the top
  of the stack, or of the root when no directive is open.
\<close>

fun append_child ::
  "node \<Rightarrow> open_directive list \<Rightarrow> node list \<Rightarrow> open_directive list \<times> node list" where
  "append_child n [] root = ([], append_node n root)"
| "append_child n (Open name args children # stack) root =
     (Open name args (append_node n children) # stack, root)"

text \<open>
  Modelled from the spec: the parser of section 4.1. A block directive is pushed on the
  stack; a self-closing one is appended at once with no children; a name the registry
  does not know is an \<^verbatim>\<open>UnknownDirectiveError\<close>. A closer pops the stack when the
  directive on top has its name and completes that directive. A closer met when no
  directive of its name is open is a parse error; the specification does not say what
  happens when a directive of another name is on top, and that is a parse error here as
  well. Open directives left at the end of the input are an
  \<^verbatim>\<open>UnterminatedDirectiveError\<close> naming the outermost one (the bottom of the stack).
\<close>

fun parse_tokens ::
  "registry \<Rightarrow> token list \<Rightarrow> open_directive list \<Rightarrow> node list \<Rightarrow>
   parse_error + node list" where
  "parse_tokens reg [] [] root = Inr root"
| "parse_tokens reg [] (d # stack) root =
     Inl (UnterminatedDirectiveError (open_name (last (d # stack))))"
| "parse_tokens reg (TText s # ts) stack root =
     (case append_child (Text s) stack root of
        (stack', root') \<Rightarrow> parse_tokens reg ts stack' root')"
| "parse_tokens reg (TExpression raw escape # ts) stack root =
     (case append_child (Expression raw escape) stack root of
        (stack', root') \<Rightarrow> parse_tokens reg ts stack' root')"
| "parse_tokens reg (TDirective name args # ts) stack root =
     (case reg name of
        None \<Rightarrow> Inl (UnknownDirectiveError name)
      | Some Inline \<Rightarrow>
          (case append_child (Directive name args [] True) stack root of
             (stack', root') \<Rightarrow> parse_tokens reg ts stack' root')
      | Some Block \<Rightarrow> parse_tokens reg ts (Open name args [] # stack) root)"
| "parse_tokens reg (TCloser name # ts) [] root = Inl (SyntaxError name)"
| "parse_tokens reg (TCloser name # ts) (Open opened args children # stack) root =
     (if opened = name
      then (case append_child (Directive opened args children False) stack root of
              (stack', root') \<Rightarrow> parse_tokens reg ts stack' root')
      else Inl (SyntaxError name))"

text \<open>
  Modelled from the spec: \<^verbatim>\<open>parse\<close> starts with no open directive and an empty root, and
  returns the top-level sequence of the root.
\<close>

definition parse :: "registry \<Rightarrow> token list \<Rightarrow> parse_error + node list" where
  "parse reg ts = parse_tokens reg ts [] []"

text \<open>
  The items a tree is written as: a block directive is its opener, the items of its
  children in order, and its closer.
\<close>

fun tokens_of :: "node \<Rightarrow> token list" where
  "tokens_of (Text s) = [TText s]"
| "tokens_of (Expression raw escape) = [TExpression raw escape]"
| "tokens_of (Directive name args children selfClosing) =
     (if selfClosing then [TDirective name args]
      else TDirective name args # concat (map tokens_of children) @ [TCloser name])"

text \<open>No two neighbours of a sequence are both text.\<close>

fun coalesced :: "node list \<Rightarrow> bool" where
  "coalesced [] = True"
| "coalesced [a] = True"
| "coalesced (a # b # ns) = (\<not> (is_Text a \<and> is_Text b) \<and> coalesced (b # ns))"

text \<open>
  The trees of a registry: a self-closing directive is registered inline and has no
  children; any other directive is registered as a block, and its children are trees
  with no two text nodes side by side.
\<close>

fun well_formed :: "registry \<Rightarrow> node \<Rightarrow> bool" where
  "well_formed reg (Text s) = True"
| "well_formed reg (Expression raw escape) = True"
| "well_formed reg (Directive name args children selfClosing) =
     (if selfClosing then reg name = Some Inline \<and> children = []
      else reg name = Some Block \<and> list_all (well_formed reg) children \<and> coalesced children)"

text \<open>Appending a sequence of nodes, one after the other.\<close>

fun append_children ::
  "node list \<Rightarrow> open_directive list \<Rightarrow> node list \<Rightarrow> open_directive list \<times> node list" where
  "append_children [] stack root = (stack, root)"
| "append_children (n # ns) stack root =
     (case append_child n stack root of (stack', root') \<Rightarrow> append_children ns stack' root')"

section \<open>Properties of the controller\<close>

lemma endsWith_suffix: "endsWith s t = suffix t s"
proof
  assume "endsWith s t"
  then have "s = take (length s - length t) s @ t"
    unfolding endsWith_def by (metis append_take_drop_id)
  then show "suffix t s"
    unfolding suffix_def by blast
next
  assume "suffix t s"
  then obtain p where "s = p @ t"
    unfolding suffix_def by blast
  then show "endsWith s t"
    unfolding endsWith_def by simp
qed

lemma endsWith_append_self: "endsWith (s @ t) t"
  by (simp add: endsWith_def)

lemma endsWith_trans: "endsWith s t \<Longrightarrow> endsWith t u \<Longrightarrow> endsWith s u"
  unfolding endsWith_suffix by (rule suffix_order.trans)

lemma atom_html_endsWith_html: "endsWith ''.atom.html'' ''.html''"
  by (simp add: endsWith_def)

lemma appended_ext_endsWith: "endsWith (if endsWith r e then r else r @ e) e"
  by (simp add: endsWith_append_self)

lemma appended_ext_once: "e \<noteq> [] \<Longrightarrow> (if endsWith r e then r else r @ e) \<noteq> r @ e @ e"
  by simp

lemma Controller_render_html_file:
  "view_file (Controller_render_html resolveViewFile caller file vars options) =
     (if endsWith (resolveViewFile caller file) ''.html'' then resolveViewFile caller file
      else resolveViewFile caller file @ ''.html'')"
  by (simp add: Controller_render_html_def Let_def)

lemma Controller_render_file:
  "view_file (Controller_render resolveViewFile caller file vars options) =
     (if endsWith (resolveViewFile caller file) ''.atom.html'' then resolveViewFile caller file
      else resolveViewFile caller file @ ''.atom.html'')"
  by (simp add: Controller_render_def Let_def)

lemma Controller_renderView_cases:
  "Controller_renderView resolveViewFile construct caller file vars options =
     (case construct (if endsWith (resolveViewFile caller file) ''.html'' then resolveViewFile caller file
              else resolveViewFile caller file @ ''.html'') vars options of
        None \<Rightarrow> Inr \<lparr>view_file = (if endsWith (resolveViewFile caller file) ''.html'' then resolveViewFile caller file
              else resolveViewFile caller file @ ''.html''), view_variables = vars, view_options = options\<rparr>
      | Some NotFound \<Rightarrow> Inl (Error (''View '' @ [CHR 0x27] @ (if endsWith (resolveViewFile caller file) ''.html'' then resolveViewFile caller file
              else resolveViewFile caller file @ ''.html'') @ [CHR 0x27] @ '' does not exist''))
      | Some (Error m) \<Rightarrow> Inl (Error m))"
  by (simp add: Controller_renderView_def Let_def split: option.split js_error.split)

text \<open>
  Claim C9. Whatever file name is passed, the view built by \<^verbatim>\<open>Controller.render\<close> (both
  versions) has a file path that ends with \<^verbatim>\<open>.html\<close>: the path is the resolved path
  itself when that already ends with the extension of the version (\<^verbatim>\<open>.html\<close>, or
  \<^verbatim>\<open>.atom.html\<close>), and the resolved path followed by the extension once otherwise, never
  by the extension twice; rendering the path of a view again leaves it as it is.
  \<^verbatim>\<open>renderView\<close> builds its path the same way; it returns the view when the constructor
  of \<^verbatim>\<open>ViewResponse\<close> throws nothing and throws otherwise, never a \<^verbatim>\<open>NotFound\<close>.
\<close>

theorem Controller_render_extension:
  "view_file (Controller_render_html resolveViewFile caller file vars options) =
     (if endsWith (resolveViewFile caller file) ''.html'' then resolveViewFile caller file
      else resolveViewFile caller file @ ''.html'')
   \<and> endsWith (view_file (Controller_render_html resolveViewFile caller file vars options)) ''.html''
   \<and> view_file (Controller_render_html resolveViewFile caller file vars options) \<noteq>
       resolveViewFile caller file @ ''.html'' @ ''.html''
   \<and> view_file (Controller_render resolveViewFile caller file vars options) =
     (if endsWith (resolveViewFile caller file) ''.atom.html'' then resolveViewFile caller file
      else resolveViewFile caller file @ ''.atom.html'')
   \<and> endsWith (view_file (Controller_render resolveViewFile caller file vars options)) ''.atom.html''
   \<and> endsWith (view_file (Controller_render resolveViewFile caller file vars options)) ''.html''
   \<and> view_file (Controller_render resolveViewFile caller file vars options) \<noteq>
       resolveViewFile caller file @ ''.atom.html'' @ ''.atom.html''
   \<and> (case Controller_renderView resolveViewFile construct caller file vars options of
         Inr v \<Rightarrow>
           view_file v =
             (if endsWith (resolveViewFile caller file) ''.html'' then resolveViewFile caller file
              else resolveViewFile caller file @ ''.html'')
           \<and> endsWith (view_file v) ''.html''
           \<and> view_file v \<noteq> resolveViewFile caller file @ ''.html'' @ ''.html''
           \<and> construct (view_file v) vars options = None
       | Inl e \<Rightarrow>
           e \<noteq> NotFound \<and>
           construct (if endsWith (resolveViewFile caller file) ''.html'' then resolveViewFile caller file
              else resolveViewFile caller file @ ''.html'') vars options \<noteq> None)
   \<and> view_file (Controller_render_html (\<lambda>caller file. file) caller
         (view_file (Controller_render_html resolveViewFile caller file vars options))
         vars options) =
       view_file (Controller_render_html resolveViewFile caller file vars options)
   \<and> view_file (Controller_render (\<lambda>caller file. file) caller
         (view_file (Controller_render resolveViewFile caller file vars options))
         vars options) =
       view_file (Controller_render resolveViewFile caller file vars options)"
  (is "?A \<and> ?B \<and> ?C \<and> ?D \<and> ?E \<and> ?F \<and> ?G \<and> ?H \<and> ?I \<and> ?J")
proof -
  let ?r = "resolveViewFile caller file"
  let ?h = "if endsWith ?r ''.html'' then ?r else ?r @ ''.html''"
  let ?a = "if endsWith ?r ''.atom.html'' then ?r else ?r @ ''.atom.html''"
  have h1: "endsWith ?h ''.html''"
    by (rule appended_ext_endsWith)
  have h2: "endsWith ?a ''.atom.html''"
    by (rule appended_ext_endsWith)
  have h3: "endsWith ?a ''.html''"
    using endsWith_trans [OF h2 atom_html_endsWith_html] .
  have n1: "?h \<noteq> ?r @ ''.html'' @ ''.html''"
    by (rule appended_ext_once) simp
  have n2: "?a \<noteq> ?r @ ''.atom.html'' @ ''.atom.html''"
    by (rule appended_ext_once) simp
  have A: ?A by (rule Controller_render_html_file)
  have B: ?B unfolding Controller_render_html_file by (rule h1)
  have C: ?C unfolding Controller_render_html_file by (rule n1)
  have D: ?D by (rule Controller_render_file)
  have E: ?E unfolding Controller_render_file by (rule h2)
  have F: ?F unfolding Controller_render_file by (rule h3)
  have G: ?G unfolding Controller_render_file by (rule n2)
  have H: ?H
  proof (cases "construct ?h vars options")
    case None
    then show ?thesis
      unfolding Controller_renderView_cases using h1 n1 by simp
  next
    case (Some e)
    then show ?thesis
      unfolding Controller_renderView_cases by (cases e) simp_all
  qed
  have I: ?I
    using B by (simp add: Controller_render_html_def Let_def)
  have J: ?J
    using E by (simp add: Controller_render_def Let_def)
  from A B C D E F G H I J show ?thesis by blast
qed

lemma Controller_render_examples:
  "view_file (Controller_render_html (\<lambda>caller file. ''views/'' @ file) ''app.ts'' ''home'' () ()) =
     ''views/home.html''"
  "view_file (Controller_render_html (\<lambda>caller file. ''views/'' @ file) ''app.ts'' ''home.html'' () ()) =
     ''views/home.html''"
  "view_file (Controller_render (\<lambda>caller file. ''views/'' @ file) ''app.ts'' ''home.html'' () ()) =
     ''views/home.html.atom.html''"
  "view_file (Controller_render (\<lambda>caller file. ''views/'' @ file) ''app.ts'' ''home.atom.html'' () ()) =
     ''views/home.atom.html''"
  "Controller_renderView (\<lambda>caller file. ''views/'' @ file) (\<lambda>file vars options. None)
     ''app.ts'' ''home'' () () =
     Inr \<lparr>view_file = ''views/home.html'', view_variables = (), view_options = ()\<rparr>"
  "Controller_renderView (\<lambda>caller file. ''views/'' @ file) (\<lambda>file vars options. Some NotFound)
     ''app.ts'' ''home'' () () =
     Inl (Error (''View '' @ [CHR 0x27] @ ''views/home.html'' @ [CHR 0x27] @ '' does not exist''))"
  by (simp_all add: Controller_render_html_def Controller_render_def Controller_renderView_def
      endsWith_def)

section \<open>Properties of the session\<close>










section \<open>Properties of the parser\<close>

lemma append_node_not_Text: "\<not> is_Text n \<Longrightarrow> append_node n cs = cs @ [n]"
  by (induction n cs rule: append_node.induct) auto

lemma append_node_after_not_Text:
  "cs \<noteq> [] \<Longrightarrow> \<not> is_Text (last cs) \<Longrightarrow> append_node n cs = cs @ [n]"
  by (induction n cs rule: append_node.induct) (auto split: if_splits)

lemma append_node_Nil: "append_node n [] = [n]"
  by (cases n) simp_all

lemma coalesced_snoc:
  "coalesced (cs @ [n]) \<Longrightarrow> append_node n cs = cs @ [n]"
proof (induction cs rule: coalesced.induct)
  case 1
  then show ?case by (simp add: append_node_Nil)
next
  case (2 a)
  then show ?case by (cases n; cases a) auto
next
  case (3 a b ns)
  then show ?case by (cases n) auto
qed

lemma coalesced_append_left: "coalesced (xs @ ys) \<Longrightarrow> coalesced xs"
  by (induction xs rule: coalesced.induct) auto

lemma append_nodes_coalesced:
  "coalesced (cs @ ns) \<Longrightarrow> foldl (\<lambda>acc n. append_node n acc) cs ns = cs @ ns"
proof (induction ns arbitrary: cs)
  case Nil
  then show ?case by simp
next
  case (Cons n ns)
  have c: "coalesced ((cs @ [n]) @ ns)" using Cons.prems by simp
  have "append_node n cs = cs @ [n]"
    using coalesced_append_left [OF c] by (rule coalesced_snoc)
  with Cons.IH [OF c] show ?case by simp
qed

lemma append_children_open:
  "append_children ns (Open name args cs # stack) root =
     (Open name args (foldl (\<lambda>acc n. append_node n acc) cs ns) # stack, root)"
  by (induction ns arbitrary: cs) auto

lemma append_children_root:
  "append_children ns [] root = ([], foldl (\<lambda>acc n. append_node n acc) root ns)"
  by (induction ns arbitrary: root) auto

lemma parse_tokens_of:
  "well_formed reg n \<Longrightarrow>
   parse_tokens reg (tokens_of n @ rest) stack root =
     (case append_child n stack root of (stack', root') \<Rightarrow> parse_tokens reg rest stack' root')"
proof (induction n arbitrary: rest stack root)
  case (Text s)
  then show ?case by simp
next
  case (Expression raw escape)
  then show ?case by simp
next
  case (Directive name args children selfClosing)
  show ?case
  proof (cases selfClosing)
    case True
    with Directive.prems show ?thesis by simp
  next
    case False
    with Directive.prems have reg: "reg name = Some Block"
      and wf: "list_all (well_formed reg) children" and co: "coalesced children"
      by simp_all
    have step: "\<And>ns rest stack root. set ns \<subseteq> set children \<Longrightarrow>
      parse_tokens reg (concat (map tokens_of ns) @ rest) stack root =
        (case append_children ns stack root of (stack', root') \<Rightarrow> parse_tokens reg rest stack' root')"
    proof -
      fix ns rest stack root
      show "set ns \<subseteq> set children \<Longrightarrow>
        parse_tokens reg (concat (map tokens_of ns) @ rest) stack root =
        (case append_children ns stack root of (stack', root') \<Rightarrow> parse_tokens reg rest stack' root')"
      proof (induction ns arbitrary: stack root)
        case Nil
        then show ?case by simp
      next
        case (Cons c cs)
        have c: "c \<in> set children" and w: "well_formed reg c"
          using Cons.prems wf by (auto simp: list_all_iff)
        have "parse_tokens reg (concat (map tokens_of (c # cs)) @ rest) stack root =
              parse_tokens reg (tokens_of c @ (concat (map tokens_of cs) @ rest)) stack root"
          by simp
        also have "\<dots> = (case append_child c stack root of
             (stack', root') \<Rightarrow> parse_tokens reg (concat (map tokens_of cs) @ rest) stack' root')"
          by (rule Directive.IH [OF c w])
        also have "\<dots> = (case append_children (c # cs) stack root of
             (stack', root') \<Rightarrow> parse_tokens reg rest stack' root')"
          using Cons.IH Cons.prems by (auto split: prod.splits)
        finally show ?case .
      qed
    qed
    have "parse_tokens reg (tokens_of (Directive name args children selfClosing) @ rest) stack root =
          parse_tokens reg (concat (map tokens_of children) @ (TCloser name # rest))
            (Open name args [] # stack) root"
      using False reg by simp
    also have "\<dots> = parse_tokens reg (TCloser name # rest)
            (Open name args (foldl (\<lambda>acc n. append_node n acc) [] children) # stack) root"
      by (simp add: step [OF subset_refl] append_children_open)
    also have "\<dots> = parse_tokens reg (TCloser name # rest) (Open name args children # stack) root"
      using append_nodes_coalesced [of "[]" children] co by simp
    also have "\<dots> = (case append_child (Directive name args children selfClosing) stack root of
             (stack', root') \<Rightarrow> parse_tokens reg rest stack' root')"
      using False by simp
    finally show ?thesis .
  qed
qed

lemma parse_tokens_of_nodes:
  "list_all (well_formed reg) ns \<Longrightarrow>
   parse_tokens reg (concat (map tokens_of ns) @ rest) stack root =
     (case append_children ns stack root of (stack', root') \<Rightarrow> parse_tokens reg rest stack' root')"
proof (induction ns arbitrary: stack root)
  case Nil
  then show ?case by simp
next
  case (Cons c cs)
  then show ?case
    by (simp add: parse_tokens_of split: prod.splits)
qed

text \<open>
  Claim C2. Parsing the items of any well-formed sequence of trees gives back these
  trees: every closer completes the directive opened last and not yet closed, so a
  directive nested in a directive of the same name is closed first and becomes its child.
\<close>

theorem parse_nested_directives:
  "list_all (well_formed reg) ns \<Longrightarrow> coalesced ns \<Longrightarrow>
   parse reg (concat (map tokens_of ns)) = Inr ns"
proof -
  assume wf: "list_all (well_formed reg) ns" and co: "coalesced ns"
  have "parse reg (concat (map tokens_of ns)) =
        parse_tokens reg (concat (map tokens_of ns) @ []) [] []"
    by (simp add: parse_def)
  also have "\<dots> = parse_tokens reg [] [] (foldl (\<lambda>acc n. append_node n acc) [] ns)"
    by (simp only: parse_tokens_of_nodes [OF wf] append_children_root prod.case)
  also have "\<dots> = Inr ns"
    using append_nodes_coalesced [of "[]" ns] co by simp
  finally show ?thesis .
qed

text \<open>
  The theorem at \<^verbatim>\<open>@if(a) @if(b) x @/if y @/if\<close>: the first closer belongs to the second
  \<^verbatim>\<open>@if\<close>, which becomes a child of the first one.
\<close>

theorem parse_nested_directives_witness:
  "list_all (well_formed builtin)
     [Directive ''if'' (Some ''a'')
        [Directive ''if'' (Some ''b'') [Text ''x''] False, Text ''y''] False]
   \<and> coalesced
     [Directive ''if'' (Some ''a'')
        [Directive ''if'' (Some ''b'') [Text ''x''] False, Text ''y''] False]
   \<and> parse builtin
        [TDirective ''if'' (Some ''a''), TDirective ''if'' (Some ''b''), TText ''x'',
         TCloser ''if'', TText ''y'', TCloser ''if''] =
       Inr [Directive ''if'' (Some ''a'')
              [Directive ''if'' (Some ''b'') [Text ''x''] False, Text ''y''] False]"
  using parse_nested_directives [of builtin
      "[Directive ''if'' (Some ''a'')
          [Directive ''if'' (Some ''b'') [Text ''x''] False, Text ''y''] False]"]
  by (simp add: builtin_def)

end
